theory Spec2Isabelle
  imports Complex_Main
begin

text \<open>
  A model of the class \<^verbatim>\<open>CategoryCards\<close> of \<^verbatim>\<open>src/scripts/CategoryCards.js\<close>: the
  scroll-driven flip and spread of the five category cards, and their hover and click
  handling. The repository holds two copies of the class; the model follows the later one
  (the second in \<^verbatim>\<open>src/unnamed/part_000\<close>), whose pick check returns without touching the
  hover when the pointer is outside the canvas. Each method is a function from the object
  before the call, and what the host answers during the call, to the object after it.
\<close>

section \<open>JavaScript numbers\<close>

text \<open>
  Every numeric value of \<^verbatim>\<open>CategoryCards.js\<close> is a JavaScript number. A number is
  modelled as an exact real or one of the three non-finite values, so that a division by
  zero is a value of the model and not HOL's \<open>x / 0 = 0\<close>. Rounding to 53 bits,
  overflow of finite arithmetic and the sign of zero are not modelled: zero is the
  positive zero.
\<close>

datatype number = Num real | PosInf | NegInf | NaN

instantiation number :: "{plus, minus, uminus, times, inverse, ord}"
begin

fun plus_number :: "number \<Rightarrow> number \<Rightarrow> number" where
  "Num a + Num b = Num (a + b)"
| "NaN + _ = NaN"
| "_ + NaN = NaN"
| "PosInf + NegInf = NaN"
| "NegInf + PosInf = NaN"
| "PosInf + _ = PosInf"
| "_ + PosInf = PosInf"
| "NegInf + _ = NegInf"
| "_ + NegInf = NegInf"

fun uminus_number :: "number \<Rightarrow> number" where
  "- Num a = Num (- a)"
| "- PosInf = NegInf"
| "- NegInf = PosInf"
| "- NaN = NaN"

definition minus_number :: "number \<Rightarrow> number \<Rightarrow> number" where
  "minus_number a b = a + (- b)"

fun times_number :: "number \<Rightarrow> number \<Rightarrow> number" where
  "Num a * Num b = Num (a * b)"
| "NaN * _ = NaN"
| "_ * NaN = NaN"
| "PosInf * Num b = (if b = 0 then NaN else if 0 < b then PosInf else NegInf)"
| "NegInf * Num b = (if b = 0 then NaN else if 0 < b then NegInf else PosInf)"
| "Num a * PosInf = (if a = 0 then NaN else if 0 < a then PosInf else NegInf)"
| "Num a * NegInf = (if a = 0 then NaN else if 0 < a then NegInf else PosInf)"
| "PosInf * PosInf = PosInf"
| "PosInf * NegInf = NegInf"
| "NegInf * PosInf = NegInf"
| "NegInf * NegInf = PosInf"

fun divide_number :: "number \<Rightarrow> number \<Rightarrow> number" where
  "divide_number (Num a) (Num b) =
     (if b = 0 then (if a = 0 then NaN else if 0 < a then PosInf else NegInf)
      else Num (a / b))"
| "divide_number NaN _ = NaN"
| "divide_number _ NaN = NaN"
| "divide_number (Num a) PosInf = Num 0"
| "divide_number (Num a) NegInf = Num 0"
| "divide_number PosInf (Num b) = (if b < 0 then NegInf else PosInf)"
| "divide_number NegInf (Num b) = (if b < 0 then PosInf else NegInf)"
| "divide_number PosInf PosInf = NaN"
| "divide_number PosInf NegInf = NaN"
| "divide_number NegInf PosInf = NaN"
| "divide_number NegInf NegInf = NaN"

definition inverse_number :: "number \<Rightarrow> number" where
  "inverse_number a = divide (Num 1) a"

fun less_number :: "number \<Rightarrow> number \<Rightarrow> bool" where
  "Num a < Num b \<longleftrightarrow> a < b"
| "NaN < _ \<longleftrightarrow> False"
| "_ < NaN \<longleftrightarrow> False"
| "NegInf < Num b \<longleftrightarrow> True"
| "NegInf < PosInf \<longleftrightarrow> True"
| "Num a < PosInf \<longleftrightarrow> True"
| "_ < NegInf \<longleftrightarrow> False"
| "PosInf < _ \<longleftrightarrow> False"

fun less_eq_number :: "number \<Rightarrow> number \<Rightarrow> bool" where
  "Num a \<le> Num b \<longleftrightarrow> a \<le> b"
| "NaN \<le> _ \<longleftrightarrow> False"
| "_ \<le> NaN \<longleftrightarrow> False"
| "NegInf \<le> _ \<longleftrightarrow> True"
| "_ \<le> PosInf \<longleftrightarrow> True"
| "Num a \<le> NegInf \<longleftrightarrow> False"
| "PosInf \<le> _ \<longleftrightarrow> False"

instance ..

end

text \<open>\<^verbatim>\<open>Math.min\<close> and \<^verbatim>\<open>Math.max\<close>: NaN if either argument is NaN.\<close>

fun Math_min :: "number \<Rightarrow> number \<Rightarrow> number" where
  "Math_min NaN _ = NaN"
| "Math_min _ NaN = NaN"
| "Math_min a b = (if b < a then b else a)"

fun Math_max :: "number \<Rightarrow> number \<Rightarrow> number" where
  "Math_max NaN _ = NaN"
| "Math_max _ NaN = NaN"
| "Math_max a b = (if a < b then b else a)"

text \<open>\<^verbatim>\<open>Math.pow\<close> with a natural exponent (the code only cubes).\<close>

fun Math_pow :: "number \<Rightarrow> nat \<Rightarrow> number" where
  "Math_pow x 0 = Num 1"
| "Math_pow (Num a) n = Num (a ^ n)"
| "Math_pow PosInf n = PosInf"
| "Math_pow NegInf n = (if odd n then NegInf else PosInf)"
| "Math_pow NaN n = NaN"


fun Math_tan :: "number \<Rightarrow> number" where
  "Math_tan (Num a) = Num (tan a)"
| "Math_tan _ = NaN"

definition Math_PI :: number where
  "Math_PI = Num pi"

text \<open>\<^verbatim>\<open>a === b\<close> on numbers: NaN is equal to nothing.\<close>

definition strict_eq :: "number \<Rightarrow> number \<Rightarrow> bool" where
  "strict_eq a b \<longleftrightarrow> a \<noteq> NaN \<and> a = b"

text \<open>\<^verbatim>\<open>a || b\<close> on numbers: \<open>0\<close> and NaN are falsy.\<close>

definition or_else :: "number \<Rightarrow> number \<Rightarrow> number" where
  "or_else a b = (if a = Num 0 \<or> a = NaN then b else a)"

fun is_finite :: "number \<Rightarrow> bool" where
  "is_finite (Num a) = True"
| "is_finite _ = False"

fun is_nonneg :: "number \<Rightarrow> bool" where
  "is_nonneg (Num a) \<longleftrightarrow> 0 \<le> a"
| "is_nonneg _ \<longleftrightarrow> False"

text \<open>\<open>between lo hi x\<close>: the number \<open>x\<close> is finite and lies in the closed interval.\<close>

fun between :: "real \<Rightarrow> real \<Rightarrow> number \<Rightarrow> bool" where
  "between lo hi (Num a) \<longleftrightarrow> lo \<le> a \<and> a \<le> hi"
| "between lo hi _ \<longleftrightarrow> False"

section \<open>The data model of \<^verbatim>\<open>CategoryCards\<close>\<close>

text \<open>
  A card is a mesh of the rendering backend together with its \<^verbatim>\<open>userData\<close>. Of the
  mesh, the pose fields that the class writes are kept: position, rotation about the y
  axis and scale (a fresh mesh has scale \<open>(1, 1, 1)\<close>).
\<close>

record card =
  position_x :: number
  position_y :: number
  position_z :: number
  rotation_y :: number
  scale :: "number \<times> number \<times> number"
  index :: nat
  categoryName :: string
  targetX :: number
  initialX :: number
  initialRotation :: number
  targetRotation :: number
  layer :: number
  progress :: number
  baseScale :: number
  hoverScale :: number
  baseZ :: number
  hoverZ :: number

text \<open>
  The fields of a \<^verbatim>\<open>CategoryCards\<close> object. Container, camera, scene and raycaster are
  opaque objects of the host and the backend: only whether they are null is kept. The
  renderer is kept with the one property of its canvas that the class writes,
  \<^verbatim>\<open>renderer.domElement.style.cursor\<close>. \<^verbatim>\<open>hoveredCard\<close> is a reference to one of the
  meshes in \<^verbatim>\<open>cards\<close>: it is the position of that mesh in the list.
\<close>

record category_cards =
  cards :: "card list"
  container :: bool
  camera :: bool
  scene :: bool
  renderer :: "string option"
  sectionTop :: number
  sectionBottom :: number
  scrollProgress :: number
  ANIMATION_SCROLL_DISTANCE :: number
  STICKY_BUFFER :: number
  stickyStartScroll :: "number option"
  raycaster :: bool
  mouse :: "number \<times> number"
  hoveredCard :: "nat option"
  interactionsEnabled :: bool
  mouseIsOver :: bool

text \<open>What the host document answers when the class queries it.\<close>

record section_element =
  bounding_top :: number
  offsetTop :: number
  offsetHeight :: number

record frame =
  categoriesSection :: "section_element option"
  scrollY :: number
  pageYOffset :: number
  intersects :: "nat list"

record layout =
  container_offsetWidth :: number
  container_offsetHeight :: number
  window_innerWidth :: number

record client_rect =
  rect_left :: number
  rect_top :: number
  rect_width :: number
  rect_height :: number

record notification =
  category :: string
  card_index :: nat

section \<open>Construction\<close>

definition constructor :: category_cards where
  "constructor =
     \<lparr>cards = [], container = False, camera = False, scene = False, renderer = None,
      sectionTop = Num 0, sectionBottom = Num 0,
      scrollProgress = Num 0, ANIMATION_SCROLL_DISTANCE = Num 3200, STICKY_BUFFER = Num 0,
      stickyStartScroll = None,
      raycaster = False, mouse = (Num (- 999), Num (- 999)), hoveredCard = None,
      interactionsEnabled = False, mouseIsOver = False\<rparr>"

text \<open>
  The guarded assignment \<^verbatim>\<open>if (this.renderer && this.renderer.domElement)
  this.renderer.domElement.style.cursor = c\<close>.
\<close>

definition set_cursor :: "string \<Rightarrow> category_cards \<Rightarrow> category_cards" where
  "set_cursor c s = (case renderer s of None \<Rightarrow> s | Some _ \<Rightarrow> s\<lparr>renderer := Some c\<rparr>)"

definition updateSectionDimensions ::
  "section_element option \<Rightarrow> category_cards \<Rightarrow> category_cards" where
  "updateSectionDimensions el s =
     (case el of
        None \<Rightarrow> s
      | Some e \<Rightarrow> s\<lparr>sectionTop := offsetTop e, sectionBottom := offsetTop e + offsetHeight e\<rparr>)"

definition init :: "bool \<Rightarrow> section_element option \<Rightarrow> category_cards \<Rightarrow> category_cards" where
  "init container_found el s =
     (if \<not> container_found then s\<lparr>container := False\<rparr>
      else updateSectionDimensions el
             (s\<lparr>container := True, camera := True, scene := True, raycaster := True,
                renderer := Some ''default''\<rparr>))"

definition calculateVisibleWidth :: "number \<Rightarrow> number \<Rightarrow> number \<Rightarrow> number" where
  "calculateVisibleWidth cameraZ fov aspect =
     (let vFOV = fov * Math_PI / Num 180;
          visibleHeight = Num 2 * Math_tan (vFOV / Num 2) * cameraZ;
          visibleWidth = visibleHeight * aspect
      in visibleWidth)"

definition categories :: "string list" where
  "categories = [''Baseball'', ''Basketball'', ''Hockey'', ''Golf'', ''Football'']"

definition createCards :: "layout \<Rightarrow> category_cards \<Rightarrow> category_cards" where
  "createCards lay s =
     (let containerWidth = (if container s then container_offsetWidth lay else window_innerWidth lay);
          containerHeight = (if container s then container_offsetHeight lay else Num 500);
          aspect = containerWidth / containerHeight;
          visibleWidth = calculateVisibleWidth (Num 20) (Num 45) aspect;
          baseCardWidth = Num 1.5;
          baseSpacingRatio = Num 0.2;
          totalUnitsNeeded = baseCardWidth * (Num 4 * (Num 1 + baseSpacingRatio) + Num 1);
          CARD_SCALE = Math_min (Num 5) ((visibleWidth * Num 0.85) / totalUnitsNeeded);
          spacing = baseCardWidth * CARD_SCALE * (Num 1 + baseSpacingRatio);
          centerOffset = (Num (real (length categories)) - Num 1) / Num 2
      in s\<lparr>cards := cards s @
            map (\<lambda>(i, name).
                   \<lparr>position_x = Num (real i) * Num 0.25,
                    position_y = Num 0,
                    position_z = Num (real i) * Num 0.5,
                    rotation_y = Math_PI,
                    scale = (Num 1, Num 1, Num 1),
                    index = i,
                    categoryName = name,
                    targetX = (Num (real i) - centerOffset) * spacing,
                    initialX = Num 0,
                    initialRotation = Math_PI,
                    targetRotation = Num 0,
                    layer = Num 0,
                    progress = Num 0,
                    baseScale = Num 1,
                    hoverScale = Num 1,
                    baseZ = Num (real i) * Num 0.5,
                    hoverZ = Num 0\<rparr>)
                (enumerate 0 categories)\<rparr>)"

section \<open>The frame: scroll progress, poses, picking\<close>

definition easeInOutCubic :: "number \<Rightarrow> number" where
  "easeInOutCubic t =
     (if t < Num 0.5
      then Num 4 * t * t * t
      else Num 1 - Math_pow (Num (- 2) * t + Num 2) 3 / Num 2)"

definition flipProgress :: "number \<Rightarrow> number" where
  "flipProgress sp = Math_min (Num 1) (sp / Num 0.4)"

definition spreadProgress :: "number \<Rightarrow> number" where
  "spreadProgress sp = Math_max (Num 0) ((sp - Num 0.4) / Num 0.6)"

text \<open>The smoothing assignment \<^verbatim>\<open>current += (target - current) * 0.15\<close>.\<close>

definition smooth :: "number \<Rightarrow> number \<Rightarrow> number" where
  "smooth current target = current + (target - current) * Num 0.15"

text \<open>The body of the loop over the cards; \<open>i\<close> is the position of \<open>c\<close> in the list.\<close>

definition animate_card :: "category_cards \<Rightarrow> number \<Rightarrow> number \<Rightarrow> nat \<Rightarrow> card \<Rightarrow> card" where
  "animate_card s easedFlip easedSpread i c =
     (let baseX = initialX c + (targetX c - initialX c) * easedSpread;
          isHovered = (interactionsEnabled s \<and> hoveredCard s = Some i);
          targetHoverScale = (if isHovered then Num 1.1 else Num 1);
          targetHoverZ = (if isHovered then Num 1.5 else Num 0);
          hs = smooth (hoverScale c) targetHoverScale;
          hz = smooth (hoverZ c) targetHoverZ
      in c\<lparr>rotation_y := initialRotation c * (Num 1 - easedFlip),
            position_x := baseX,
            hoverScale := hs,
            hoverZ := hz,
            scale := (hs, hs, hs),
            position_z := baseZ c + hz\<rparr>)"

definition applyScrollAnimation :: "category_cards \<Rightarrow> category_cards" where
  "applyScrollAnimation s =
     (if cards s = [] then s
      else
        let easedFlip = easeInOutCubic (flipProgress (scrollProgress s));
            easedSpread = easeInOutCubic (spreadProgress (scrollProgress s));
            wasEnabled = interactionsEnabled s;
            s1 = s\<lparr>interactionsEnabled := (Num 1 \<le> flipProgress (scrollProgress s))\<rparr>;
            s2 = (if wasEnabled \<and> \<not> interactionsEnabled s1
                  then set_cursor ''default'' (s1\<lparr>hoveredCard := None\<rparr>)
                  else s1)
        in s2\<lparr>cards := map (\<lambda>(i, c). animate_card s2 easedFlip easedSpread i c)
                            (enumerate 0 (cards s2))\<rparr>)"

definition checkIntersections :: "nat list \<Rightarrow> category_cards \<Rightarrow> category_cards" where
  "checkIntersections hits s =
     (if \<not> interactionsEnabled s then
        (if hoveredCard s \<noteq> None then set_cursor ''default'' (s\<lparr>hoveredCard := None\<rparr>) else s)
      else if \<not> mouseIsOver s then s
      else if \<not> raycaster s \<or> \<not> camera s \<or> cards s = [] then s
      else
        (case hits of
           newHovered # _ \<Rightarrow>
             (if hoveredCard s \<noteq> Some newHovered
              then set_cursor ''pointer'' (s\<lparr>hoveredCard := Some newHovered\<rparr>)
              else s)
         | [] \<Rightarrow>
             (if hoveredCard s \<noteq> None
              then set_cursor ''default'' (s\<lparr>hoveredCard := None\<rparr>)
              else s)))"

text \<open>
  The first half of \<^verbatim>\<open>animate\<close>: the scroll progress of this frame, from the section
  \<open>el\<close> found in the document.
\<close>

definition track_scroll :: "section_element \<Rightarrow> frame \<Rightarrow> category_cards \<Rightarrow> category_cards" where
  "track_scroll el f s =
     (let currentScroll = or_else (scrollY f) (pageYOffset f);
          s1 = (if strict_eq (sectionTop s) (Num 0) then updateSectionDimensions (Some el) s else s);
          isAtTop = (bounding_top el \<le> Num 0)
      in if isAtTop then
           let start = (case stickyStartScroll s1 of None \<Rightarrow> currentScroll | Some a \<Rightarrow> a);
               scrolledSinceSticky = currentScroll - start
           in s1\<lparr>stickyStartScroll := Some start,
                 scrollProgress :=
                   Math_min (Num 1) (scrolledSinceSticky / ANIMATION_SCROLL_DISTANCE s1)\<rparr>
         else s1\<lparr>scrollProgress := Num 0, stickyStartScroll := None\<rparr>)"

definition animate :: "frame \<Rightarrow> category_cards \<Rightarrow> category_cards" where
  "animate f s =
     (case categoriesSection f of
        None \<Rightarrow> s
      | Some el \<Rightarrow> checkIntersections (intersects f) (applyScrollAnimation (track_scroll el f s)))"

section \<open>Pointer events\<close>

definition onMouseMove :: "number \<Rightarrow> number \<Rightarrow> client_rect \<Rightarrow> category_cards \<Rightarrow> category_cards" where
  "onMouseMove clientX clientY rect s =
     (if \<not> container s \<or> renderer s = None then s
      else s\<lparr>mouseIsOver := True,
             mouse := (((clientX - rect_left rect) / rect_width rect) * Num 2 - Num 1,
                       (- ((clientY - rect_top rect) / rect_height rect)) * Num 2 + Num 1)\<rparr>)"

definition onMouseLeave :: "category_cards \<Rightarrow> category_cards" where
  "onMouseLeave s =
     (let s1 = s\<lparr>mouseIsOver := False, mouse := (Num (- 999), Num (- 999))\<rparr>
      in if hoveredCard s1 \<noteq> None then set_cursor ''default'' (s1\<lparr>hoveredCard := None\<rparr>) else s1)"

text \<open>
  \<^verbatim>\<open>onClick\<close> returns the object after the call and the \<^verbatim>\<open>categoryCardClick\<close> events it
  dispatched on the document, in order.
\<close>

definition onClick :: "category_cards \<Rightarrow> category_cards \<times> notification list" where
  "onClick s =
     (if \<not> interactionsEnabled s \<or> renderer s = None \<or> \<not> camera s then (s, [])
      else
        (case hoveredCard s of
           Some h \<Rightarrow>
             (s, [\<lparr>category = categoryName (cards s ! h), card_index = index (cards s ! h)\<rparr>])
         | None \<Rightarrow> (s, [])))"

definition onResize :: "section_element option \<Rightarrow> category_cards \<Rightarrow> category_cards" where
  "onResize el s =
     (if \<not> container s \<or> renderer s = None \<or> \<not> camera s then s
      else updateSectionDimensions el s)"

section \<open>Reachable states\<close>

text \<open>
  The calls the page can make on the object, each with what the host answers during the
  call. The ray-casting backend is asked for the hits among \<^verbatim>\<open>this.cards\<close> only, so the
  hits of a frame are positions in that list.
\<close>

datatype event =
    Init bool "section_element option"
  | CreateCards layout
  | Animate frame
  | MouseMove number number client_rect
  | MouseLeave
  | Click
  | Resize "section_element option"

fun step :: "event \<Rightarrow> category_cards \<Rightarrow> category_cards" where
  "step (Init found el) s = init found el s"
| "step (CreateCards lay) s = createCards lay s"
| "step (Animate f) s = animate f s"
| "step (MouseMove x y rect) s = onMouseMove x y rect s"
| "step MouseLeave s = onMouseLeave s"
| "step Click s = fst (onClick s)"
| "step (Resize el) s = onResize el s"

fun wf_event :: "category_cards \<Rightarrow> event \<Rightarrow> bool" where
  "wf_event s (Animate f) = list_all (\<lambda>h. h < length (cards s)) (intersects f)"
| "wf_event s _ = True"

inductive reachable :: "category_cards \<Rightarrow> bool" where
  reach_start: "reachable constructor"
| reach_step: "reachable s \<Longrightarrow> wf_event s e \<Longrightarrow> reachable (step e s)"

text \<open>
  The states of the running page: \<^verbatim>\<open>three-setup.js\<close> constructs the object, calls
  \<^verbatim>\<open>init\<close> and \<^verbatim>\<open>createCards\<close>, and only then starts the frame loop and the listeners.
\<close>

inductive started :: "category_cards \<Rightarrow> bool" where
  boot: "started (createCards lay (init found el constructor))"
| later: "started s \<Longrightarrow> wf_event s e \<Longrightarrow> started (step e s)"

text \<open>A sequence of calls from a state, and whether each is well-formed where it is made.\<close>

fun run :: "event list \<Rightarrow> category_cards \<Rightarrow> category_cards" where
  "run [] s = s"
| "run (e # es) s = run es (step e s)"

fun wf_run :: "event list \<Rightarrow> category_cards \<Rightarrow> bool" where
  "wf_run [] s = True"
| "wf_run (e # es) s = (wf_event s e \<and> wf_run es (step e s))"

section \<open>Measuring the hover smoothing\<close>



text \<open>
  The hover state of a card is in range: scale factor in \<open>[1, 1.1]\<close>, lift in
  \<open>[0, 1.5]\<close>, and the committed scale and depth are the ones the hover state gives.
\<close>

definition hover_in_range :: "card \<Rightarrow> bool" where
  "hover_in_range c \<longleftrightarrow>
     between 1 1.1 (hoverScale c) \<and> between 0 1.5 (hoverZ c) \<and>
     scale c = (hoverScale c, hoverScale c, hoverScale c) \<and>
     position_z c = baseZ c + hoverZ c"

text \<open>
  What the host can answer for the sizes \<^verbatim>\<open>createCards\<close> reads: non-negative finite
  numbers, and a container that is not 0 by 0. A card's layout is finite when both
  \<^verbatim>\<open>initialX\<close> and \<^verbatim>\<open>targetX\<close> are finite numbers.
\<close>

definition wf_layout :: "category_cards \<Rightarrow> layout \<Rightarrow> bool" where
  "wf_layout s lay \<longleftrightarrow>
     (if container s
      then is_nonneg (container_offsetWidth lay) \<and> is_nonneg (container_offsetHeight lay) \<and>
           (container_offsetWidth lay \<noteq> Num 0 \<or> container_offsetHeight lay \<noteq> Num 0)
      else is_nonneg (window_innerWidth lay))"

definition layout_finite :: "card \<Rightarrow> bool" where
  "layout_finite c \<longleftrightarrow> is_finite (initialX c) \<and> is_finite (targetX c)"

section \<open>A page session\<close>

text \<open>
  A sticky section that pins when the page is scrolled to offset 600, drawn with its top
  edge at viewport offset \<open>y\<close> (\<open>0\<close> while it is pinned); a frame that finds it there with
  the page scrolled to \<open>scroll\<close> and the ray hitting the cards \<open>hits\<close>; a 1200 by 600
  container and canvas.
\<close>

definition section_at :: "real \<Rightarrow> section_element" where
  "section_at y = \<lparr>bounding_top = Num y, offsetTop = Num 600, offsetHeight = Num 4000\<rparr>"

definition frame_at :: "real \<Rightarrow> real \<Rightarrow> nat list \<Rightarrow> frame" where
  "frame_at y scroll hits =
     \<lparr>categoriesSection = Some (section_at y), scrollY = Num scroll, pageYOffset = Num scroll,
      intersects = hits\<rparr>"

definition desktop_layout :: layout where
  "desktop_layout =
     \<lparr>container_offsetWidth = Num 1200, container_offsetHeight = Num 600,
      window_innerWidth = Num 1200\<rparr>"

definition canvas_rect :: client_rect where
  "canvas_rect =
     \<lparr>rect_left = Num 0, rect_top = Num 0, rect_width = Num 1200, rect_height = Num 600\<rparr>"

text \<open>
  The page starts the object as \<^verbatim>\<open>three-setup.js\<close> does (\<^verbatim>\<open>init\<close>, then
  \<^verbatim>\<open>createCards\<close>), the section pins at scroll offset 600, and the user scrolls on.
\<close>

definition startup :: "event list" where
  "startup =
     [Init True (Some (section_at 600)),
      CreateCards desktop_layout,
      Animate (frame_at 0 600 [])]"

text \<open>Scrolled 960 pixels into the pinned phase: progress \<open>0.3\<close>, the flip is running.\<close>

definition flipping :: category_cards where
  "flipping = run (startup @ [Animate (frame_at 0 1560 [])]) constructor"

text \<open>
  Scrolled through the whole animation with the pointer at the centre of the canvas, where
  the ray hits the middle card.
\<close>

definition hovering :: category_cards where
  "hovering =
     run (startup @ [MouseMove (Num 600) (Num 300) canvas_rect, Animate (frame_at 0 3800 [2])])
       constructor"

text \<open>
  The page was opened already scrolled to offset 1000, 400 pixels past the point where the
  section pins: the section is stuck at the top of the viewport and the first frame records
  1000 as the anchor.
\<close>

definition opened_inside :: category_cards where
  "opened_inside =
     run [Init True (Some (section_at 0)),
          CreateCards desktop_layout,
          Animate (frame_at 0 1000 [])] constructor"

section \<open>Arithmetic on finite numbers\<close>

lemma Num_minus [simp]: "Num a - Num b = Num (a - b)"
  by (simp add: minus_number_def)

lemma Math_min_Num [simp]: "Math_min (Num a) (Num b) = Num (min a b)"
  by (simp add: min_def)

lemma Math_max_Num [simp]: "Math_max (Num a) (Num b) = Num (max a b)"
  by (simp add: max_def)

lemma Math_pow_Num [simp]: "Math_pow (Num a) n = Num (a ^ n)"
  by (cases n) simp_all

lemma easeInOutCubic_Num:
  "easeInOutCubic (Num t) = Num (if t < 1/2 then 4 * t * t * t else 1 - (- 2 * t + 2) ^ 3 / 2)"
  by (simp add: easeInOutCubic_def)

lemma flipProgress_Num: "flipProgress (Num p) = Num (min 1 (p / (2/5)))"
  by (simp add: flipProgress_def)

lemma spreadProgress_Num: "spreadProgress (Num p) = Num (max 0 ((p - 2/5) / (3/5)))"
  by (simp add: spreadProgress_def)

lemma smooth_Num: "smooth (Num c) (Num t) = Num (c + (t - c) * (15/100))"
  by (simp add: smooth_def)


subsection \<open>The easing curve on the unit interval\<close>

lemma cube_unit: "0 \<le> (u::real) \<Longrightarrow> u \<le> 1 \<Longrightarrow> 0 \<le> u ^ 3 \<and> u ^ 3 \<le> 1"
  by (simp add: power_le_one)

lemma ease_unit_real:
  assumes "0 \<le> (t::real)" "t \<le> 1"
  shows "0 \<le> (if t < 1/2 then 4 * t * t * t else 1 - (- 2 * t + 2) ^ 3 / 2)
       \<and> (if t < 1/2 then 4 * t * t * t else 1 - (- 2 * t + 2) ^ 3 / 2) \<le> 1"
proof (cases "t < 1/2")
  case True
  have "t ^ 3 \<le> (1/2) ^ 3" using assms True by (intro power_mono) auto
  moreover have "0 \<le> t ^ 3" using assms by simp
  ultimately show ?thesis using True by (simp add: power3_eq_cube)
next
  case False
  have "0 \<le> - 2 * t + 2" "- 2 * t + 2 \<le> 1" using assms False by auto
  then have "0 \<le> (- 2 * t + 2) ^ 3 \<and> (- 2 * t + 2) ^ 3 \<le> 1" by (rule cube_unit)
  then show ?thesis using False by simp
qed

lemma easeInOutCubic_between:
  assumes "between 0 1 t"
  shows "between 0 1 (easeInOutCubic t)"
proof (cases t)
  case (Num a)
  with assms have "0 \<le> a" "a \<le> 1" by auto
  from ease_unit_real[OF this] show ?thesis unfolding Num easeInOutCubic_Num by simp
qed (use assms in auto)

subsection \<open>One smoothing step stays between the old value and the target\<close>

lemma smooth_between:
  assumes "between lo hi c" "lo \<le> t" "t \<le> hi"
  shows "between lo hi (smooth c (Num t))"
proof (cases c)
  case (Num a)
  with assms have "lo \<le> a" "a \<le> hi" by auto
  with assms(2,3) have "lo \<le> a + (t - a) * (15/100) \<and> a + (t - a) * (15/100) \<le> hi"
    by (simp add: field_simps)
  then show ?thesis unfolding Num smooth_Num between.simps .
qed (use assms in auto)





section \<open>What each method changes\<close>

lemma set_cursor_eq: "set_cursor c s = s\<lparr>renderer := map_option (\<lambda>_. c) (renderer s)\<rparr>"
  by (cases "renderer s") (simp_all add: set_cursor_def)

lemma track_scroll_fields [simp]:
  "hoveredCard (track_scroll el f s) = hoveredCard s"
  "interactionsEnabled (track_scroll el f s) = interactionsEnabled s"
  "mouseIsOver (track_scroll el f s) = mouseIsOver s"
  "mouse (track_scroll el f s) = mouse s"
  "cards (track_scroll el f s) = cards s"
  "ANIMATION_SCROLL_DISTANCE (track_scroll el f s) = ANIMATION_SCROLL_DISTANCE s"
  by (simp_all add: track_scroll_def updateSectionDimensions_def Let_def)

lemma track_scroll_progress:
  "scrollProgress (track_scroll el f s) =
     (if bounding_top el \<le> Num 0
      then Math_min (Num 1)
             ((or_else (scrollY f) (pageYOffset f) -
               (case stickyStartScroll s of
                  None \<Rightarrow> or_else (scrollY f) (pageYOffset f)
                | Some a \<Rightarrow> a)) / ANIMATION_SCROLL_DISTANCE s)
      else Num 0)"
  by (simp add: track_scroll_def updateSectionDimensions_def Let_def)

lemma applyScrollAnimation_fields [simp]:
  "mouseIsOver (applyScrollAnimation s) = mouseIsOver s"
  "mouse (applyScrollAnimation s) = mouse s"
  "length (cards (applyScrollAnimation s)) = length (cards s)"
  "ANIMATION_SCROLL_DISTANCE (applyScrollAnimation s) = ANIMATION_SCROLL_DISTANCE s"
  "scrollProgress (applyScrollAnimation s) = scrollProgress s"
  by (simp_all add: applyScrollAnimation_def set_cursor_eq Let_def)

lemma applyScrollAnimation_enabled:
  "interactionsEnabled (applyScrollAnimation s) =
     (if cards s = [] then interactionsEnabled s else Num 1 \<le> flipProgress (scrollProgress s))"
  by (simp add: applyScrollAnimation_def set_cursor_eq Let_def)

lemma applyScrollAnimation_hovered:
  "hoveredCard (applyScrollAnimation s) =
     (if cards s \<noteq> [] \<and> interactionsEnabled s \<and> \<not> Num 1 \<le> flipProgress (scrollProgress s)
      then None else hoveredCard s)"
  by (simp add: applyScrollAnimation_def set_cursor_eq Let_def)

lemma applyScrollAnimation_nth:
  assumes "i < length (cards s)"
  shows "cards (applyScrollAnimation s) ! i =
           animate_card (applyScrollAnimation s)
             (easeInOutCubic (flipProgress (scrollProgress s)))
             (easeInOutCubic (spreadProgress (scrollProgress s))) i (cards s ! i)"
proof -
  from assms have ne: "cards s \<noteq> []" by auto
  show ?thesis using assms ne
    by (simp add: applyScrollAnimation_def Let_def set_cursor_eq nth_enumerate_eq animate_card_def)
qed

lemma checkIntersections_fields [simp]:
  "interactionsEnabled (checkIntersections hits s) = interactionsEnabled s"
  "mouseIsOver (checkIntersections hits s) = mouseIsOver s"
  "mouse (checkIntersections hits s) = mouse s"
  "cards (checkIntersections hits s) = cards s"
  "ANIMATION_SCROLL_DISTANCE (checkIntersections hits s) = ANIMATION_SCROLL_DISTANCE s"
  "scrollProgress (checkIntersections hits s) = scrollProgress s"
  by (simp_all add: checkIntersections_def set_cursor_eq split: list.split)

lemma checkIntersections_hovered:
  "hoveredCard (checkIntersections hits s) =
     (if \<not> interactionsEnabled s then None
      else if \<not> mouseIsOver s \<or> \<not> raycaster s \<or> \<not> camera s \<or> cards s = [] then hoveredCard s
      else case hits of [] \<Rightarrow> None | h # _ \<Rightarrow> Some h)"
  by (auto simp add: checkIntersections_def set_cursor_eq split: list.split)

lemma animate_fields [simp]:
  "mouseIsOver (animate f s) = mouseIsOver s"
  "mouse (animate f s) = mouse s"
  "length (cards (animate f s)) = length (cards s)"
  "ANIMATION_SCROLL_DISTANCE (animate f s) = ANIMATION_SCROLL_DISTANCE s"
  by (simp_all add: animate_def split: option.split)

lemma animate_cards:
  "cards (animate f s) =
     (case categoriesSection f of
        None \<Rightarrow> cards s
      | Some el \<Rightarrow> cards (applyScrollAnimation (track_scroll el f s)))"
  by (simp add: animate_def split: option.split)

lemma animate_progress:
  "categoriesSection f = Some el \<Longrightarrow>
     scrollProgress (animate f s) = scrollProgress (track_scroll el f s)"
  by (simp add: animate_def)

lemma init_fields [simp]:
  "hoveredCard (init found el s) = hoveredCard s"
  "interactionsEnabled (init found el s) = interactionsEnabled s"
  "mouseIsOver (init found el s) = mouseIsOver s"
  "mouse (init found el s) = mouse s"
  "cards (init found el s) = cards s"
  "ANIMATION_SCROLL_DISTANCE (init found el s) = ANIMATION_SCROLL_DISTANCE s"
  by (simp_all add: init_def updateSectionDimensions_def split: option.split)

lemma onResize_fields [simp]:
  "hoveredCard (onResize el s) = hoveredCard s"
  "interactionsEnabled (onResize el s) = interactionsEnabled s"
  "mouseIsOver (onResize el s) = mouseIsOver s"
  "mouse (onResize el s) = mouse s"
  "cards (onResize el s) = cards s"
  "ANIMATION_SCROLL_DISTANCE (onResize el s) = ANIMATION_SCROLL_DISTANCE s"
  by (simp_all add: onResize_def updateSectionDimensions_def split: option.split)

lemma createCards_fields [simp]:
  "hoveredCard (createCards lay s) = hoveredCard s"
  "interactionsEnabled (createCards lay s) = interactionsEnabled s"
  "mouseIsOver (createCards lay s) = mouseIsOver s"
  "mouse (createCards lay s) = mouse s"
  "length (cards (createCards lay s)) = length (cards s) + 5"
  "ANIMATION_SCROLL_DISTANCE (createCards lay s) = ANIMATION_SCROLL_DISTANCE s"
  by (simp_all add: createCards_def categories_def Let_def)

lemma onMouseMove_fields [simp]:
  "hoveredCard (onMouseMove x y rect s) = hoveredCard s"
  "interactionsEnabled (onMouseMove x y rect s) = interactionsEnabled s"
  "cards (onMouseMove x y rect s) = cards s"
  "ANIMATION_SCROLL_DISTANCE (onMouseMove x y rect s) = ANIMATION_SCROLL_DISTANCE s"
  by (simp_all add: onMouseMove_def)

lemma onMouseMove_out:
  "\<not> mouseIsOver (onMouseMove x y rect s) \<longrightarrow> onMouseMove x y rect s = s \<and> \<not> mouseIsOver s"
proof (cases "container s \<and> renderer s \<noteq> None")
  case True
  then have "mouseIsOver (onMouseMove x y rect s)" by (auto simp add: onMouseMove_def)
  then show ?thesis by simp
next
  case False
  then have "onMouseMove x y rect s = s" by (auto simp add: onMouseMove_def)
  then show ?thesis by simp
qed

lemma onMouseLeave_fields [simp]:
  "hoveredCard (onMouseLeave s) = None"
  "mouseIsOver (onMouseLeave s) = False"
  "mouse (onMouseLeave s) = (Num (- 999), Num (- 999))"
  "interactionsEnabled (onMouseLeave s) = interactionsEnabled s"
  "cards (onMouseLeave s) = cards s"
  "ANIMATION_SCROLL_DISTANCE (onMouseLeave s) = ANIMATION_SCROLL_DISTANCE s"
  by (simp_all add: onMouseLeave_def set_cursor_eq Let_def)

lemma onClick_state [simp]: "fst (onClick s) = s"
  by (simp add: onClick_def split: option.split)

lemma reachable_run: "reachable s \<Longrightarrow> wf_run es s \<Longrightarrow> reachable (run es s)"
  by (induction es arbitrary: s) (auto intro: reach_step)

section \<open>Invariants of the reachable states\<close>

lemma animate_enabled_hover:
  "categoriesSection f = Some el \<Longrightarrow> \<not> interactionsEnabled (animate f s) \<Longrightarrow>
     hoveredCard (animate f s) = None"
  by (simp add: animate_def checkIntersections_hovered)

lemma reachable_enabled_hover:
  "reachable s \<Longrightarrow> \<not> interactionsEnabled s \<Longrightarrow> hoveredCard s = None"
proof (induction rule: reachable.induct)
  case reach_start
  show ?case by (simp add: constructor_def)
next
  case (reach_step s e)
  show ?case
  proof (cases e)
    case (Animate f)
    show ?thesis
    proof (cases "categoriesSection f")
      case None
      with reach_step Animate show ?thesis by (simp add: animate_def)
    next
      case (Some el)
      with reach_step.prems Animate show ?thesis by (simp add: animate_enabled_hover)
    qed
  qed (use reach_step in simp_all)
qed

lemma animate_mouse_out:
  "\<not> mouseIsOver s \<Longrightarrow> hoveredCard s = None \<Longrightarrow> hoveredCard (animate f s) = None"
  by (simp add: animate_def checkIntersections_hovered applyScrollAnimation_hovered
           split: option.split)

lemma reachable_mouse_out:
  "reachable s \<Longrightarrow> \<not> mouseIsOver s \<Longrightarrow>
     hoveredCard s = None \<and> mouse s = (Num (- 999), Num (- 999))"
proof (induction rule: reachable.induct)
  case reach_start
  show ?case by (simp add: constructor_def)
next
  case (reach_step s e)
  show ?case
  proof (cases e)
    case (Animate f)
    from reach_step.prems Animate have out: "\<not> mouseIsOver s" by simp
    from reach_step.IH[OF out] Animate out show ?thesis
      by (simp add: animate_mouse_out)
  next
    case (MouseMove x y rect)
    from reach_step.prems MouseMove have "onMouseMove x y rect s = s \<and> \<not> mouseIsOver s"
      using onMouseMove_out[of x y rect s] by simp
    with reach_step.IH MouseMove show ?thesis by simp
  qed (use reach_step in simp_all)
qed

lemma reachable_no_cards:
  "reachable s \<Longrightarrow> cards s = [] \<Longrightarrow> \<not> interactionsEnabled s"
proof (induction rule: reachable.induct)
  case reach_start
  show ?case by (simp add: constructor_def)
next
  case (reach_step s e)
  show ?case
  proof (cases e)
    case (Animate f)
    from reach_step.prems Animate have "cards s = []"
      using animate_fields(3)[of f s] by simp
    with reach_step Animate show ?thesis
      by (simp add: animate_def applyScrollAnimation_enabled split: option.split)
  next
    case (CreateCards lay)
    with reach_step.prems show ?thesis using createCards_fields(5)[of lay s] by simp
  qed (use reach_step in simp_all)
qed

lemma reachable_distance:
  "reachable s \<Longrightarrow> ANIMATION_SCROLL_DISTANCE s = Num 3200"
proof (induction rule: reachable.induct)
  case reach_start
  show ?case by (simp add: constructor_def)
next
  case (reach_step s e)
  then show ?case by (cases e) simp_all
qed

lemma animate_hover_ref:
  assumes "list_all (\<lambda>h. h < length (cards s)) (intersects f)"
    and "\<And>h. hoveredCard s = Some h \<Longrightarrow> h < length (cards s)"
    and "hoveredCard (animate f s) = Some h"
  shows "h < length (cards s)"
proof (cases "categoriesSection f")
  case None
  with assms show ?thesis by (simp add: animate_def)
next
  case (Some el)
  let ?t = "applyScrollAnimation (track_scroll el f s)"
  have old: "hoveredCard ?t = Some k \<Longrightarrow> k < length (cards s)" for k
    using assms(2) by (simp add: applyScrollAnimation_hovered split: if_splits)
  from assms(3) Some have "hoveredCard (checkIntersections (intersects f) ?t) = Some h"
    by (simp add: animate_def)
  then consider "hoveredCard ?t = Some h" | xs where "intersects f = h # xs"
    by (auto simp add: checkIntersections_hovered split: if_splits list.splits)
  then show ?thesis
  proof cases
    case 1
    then show ?thesis by (rule old)
  next
    case 2
    with assms(1) show ?thesis by simp
  qed
qed

text \<open>The hovered reference always points into the card list.\<close>

lemma reachable_hover_ref:
  "reachable s \<Longrightarrow> hoveredCard s = Some h \<Longrightarrow> h < length (cards s)"
proof (induction arbitrary: h rule: reachable.induct)
  case reach_start
  then show ?case by (simp add: constructor_def)
next
  case (reach_step s e)
  show ?case
  proof (cases e)
    case (Animate f)
    with reach_step.hyps(2) have wf: "list_all (\<lambda>h. h < length (cards s)) (intersects f)"
      by simp
    from reach_step.prems Animate have "hoveredCard (animate f s) = Some h" by simp
    from animate_hover_ref[OF wf reach_step.IH this] Animate show ?thesis by simp
  next
    case (CreateCards lay)
    with reach_step.prems have "hoveredCard s = Some h" by simp
    from reach_step.IH[OF this] CreateCards show ?thesis by simp
  qed (use reach_step.IH reach_step.prems in simp_all)
qed

lemma animate_card_in_range:
  "hover_in_range c \<Longrightarrow> hover_in_range (animate_card s ef es i c)"
  by (simp add: hover_in_range_def animate_card_def Let_def smooth_between)

lemma applyScrollAnimation_in_range:
  assumes "\<forall>c \<in> set (cards s). hover_in_range c"
  shows "\<forall>c \<in> set (cards (applyScrollAnimation s)). hover_in_range c"
proof
  fix c assume "c \<in> set (cards (applyScrollAnimation s))"
  then obtain i where i: "i < length (cards s)" "c = cards (applyScrollAnimation s) ! i"
    by (auto simp add: in_set_conv_nth)
  then have "hover_in_range (cards s ! i)" using assms by simp
  then show "hover_in_range c"
    unfolding i(2) applyScrollAnimation_nth[OF i(1)] by (rule animate_card_in_range)
qed

lemma createCards_in_range:
  assumes "\<forall>c \<in> set (cards s). hover_in_range c"
  shows "\<forall>c \<in> set (cards (createCards lay s)). hover_in_range c"
  using assms by (auto simp add: createCards_def Let_def hover_in_range_def)

lemma reachable_in_range:
  "reachable s \<Longrightarrow> \<forall>c \<in> set (cards s). hover_in_range c"
proof (induction rule: reachable.induct)
  case reach_start
  show ?case by (simp add: constructor_def)
next
  case (reach_step s e)
  show ?case
  proof (cases e)
    case (Animate f)
    show ?thesis
    proof (cases "categoriesSection f")
      case None
      with reach_step.IH Animate show ?thesis by (simp add: animate_cards)
    next
      case (Some el)
      have "\<forall>c \<in> set (cards (track_scroll el f s)). hover_in_range c"
        using reach_step.IH by simp
      from applyScrollAnimation_in_range[OF this] Some Animate show ?thesis
        by (simp add: animate_cards)
    qed
  next
    case (CreateCards lay)
    with createCards_in_range[OF reach_step.IH] show ?thesis by simp
  qed (use reach_step.IH in simp_all)
qed

section \<open>Layout coordinates and the card list\<close>

lemma tan_fov: "0 < tan (45 * pi / 180 / 2)"
  by (intro tan_gt_zero) (simp_all add: pi_gt_zero)

lemma aspect_cases:
  assumes "is_nonneg w" "is_nonneg h" "w \<noteq> Num 0 \<or> h \<noteq> Num 0"
  shows "w / h = PosInf \<or> (\<exists>a. w / h = Num a)"
  using assms by (cases w; cases h) auto

lemma visibleWidth_cases:
  assumes "aspect = PosInf \<or> (\<exists>a. aspect = Num a)"
  shows "calculateVisibleWidth (Num 20) (Num 45) aspect = PosInf \<or>
         (\<exists>v. calculateVisibleWidth (Num 20) (Num 45) aspect = Num v)"
  using assms tan_fov by (auto simp add: calculateVisibleWidth_def Math_PI_def Let_def)

lemma card_scale_finite:
  assumes "v = PosInf \<or> (\<exists>a. v = Num a)"
  shows "is_finite (Math_min (Num 5) ((v * Num 0.85) / (Num 1.5 * (Num 4 * (Num 1 + Num 0.2) + Num 1))))"
  using assms by auto

lemma createCards_layout_finite:
  assumes "wf_layout s lay" and "\<forall>c \<in> set (cards s). layout_finite c"
  shows "\<forall>c \<in> set (cards (createCards lay s)). layout_finite c"
proof -
  let ?w = "if container s then container_offsetWidth lay else window_innerWidth lay"
  let ?h = "if container s then container_offsetHeight lay else Num 500"
  have "?w / ?h = PosInf \<or> (\<exists>a. ?w / ?h = Num a)"
  proof (cases "container s")
    case True
    with assms(1) show ?thesis by (simp add: wf_layout_def aspect_cases)
  next
    case False
    with assms(1) obtain x where "window_innerWidth lay = Num x"
      by (cases "window_innerWidth lay") (simp_all add: wf_layout_def)
    with False have "?w / ?h = Num (x / 500)" by simp
    then show ?thesis by blast
  qed
  from card_scale_finite[OF visibleWidth_cases[OF this]]
  obtain k where k: "Math_min (Num 5)
      ((calculateVisibleWidth (Num 20) (Num 45) (?w / ?h) * Num 0.85) /
       (Num 1.5 * (Num 4 * (Num 1 + Num 0.2) + Num 1))) = Num k"
    by (metis is_finite.elims(2))
  show ?thesis
    using assms(2) k by (auto simp add: createCards_def Let_def layout_finite_def)
qed

lemma animate_card_layout_finite:
  "layout_finite c \<Longrightarrow> layout_finite (animate_card s ef es i c)"
  by (simp add: layout_finite_def animate_card_def Let_def)

lemma applyScrollAnimation_layout_finite:
  assumes "\<forall>c \<in> set (cards s). layout_finite c"
  shows "\<forall>c \<in> set (cards (applyScrollAnimation s)). layout_finite c"
proof
  fix c assume "c \<in> set (cards (applyScrollAnimation s))"
  then obtain i where i: "i < length (cards s)" "c = cards (applyScrollAnimation s) ! i"
    by (auto simp add: in_set_conv_nth)
  then have "layout_finite (cards s ! i)" using assms by simp
  then show "layout_finite c"
    unfolding i(2) applyScrollAnimation_nth[OF i(1)] by (rule animate_card_layout_finite)
qed

text \<open>
  Cards are created with finite layout coordinates unless the container is 0 by 0, and
  no method makes them non-finite or removes a card.
\<close>

lemma step_layout_finite:
  assumes "\<forall>c \<in> set (cards s). layout_finite c"
    and "\<And>lay. e = CreateCards lay \<Longrightarrow> wf_layout s lay"
  shows "\<forall>c \<in> set (cards (step e s)). layout_finite c"
proof (cases e)
  case (Animate f)
  show ?thesis
  proof (cases "categoriesSection f")
    case None
    with assms(1) Animate show ?thesis by (simp add: animate_cards)
  next
    case (Some el)
    have "\<forall>c \<in> set (cards (track_scroll el f s)). layout_finite c"
      using assms(1) by simp
    from applyScrollAnimation_layout_finite[OF this] Some Animate show ?thesis
      by (simp add: animate_cards)
  qed
next
  case (CreateCards lay)
  with createCards_layout_finite[OF assms(2) assms(1)] show ?thesis by simp
qed (use assms(1) in simp_all)

lemma step_keeps_cards: "length (cards s) \<le> length (cards (step e s))"
  by (cases e) simp_all

lemma createCards_nonempty: "cards (createCards lay s) \<noteq> []"
proof
  assume "cards (createCards lay s) = []"
  then have "length (cards (createCards lay s)) = 0" by (simp only: list.size)
  then show False by simp
qed

lemma started_reachable: "started s \<Longrightarrow> reachable s"
proof (induction rule: started.induct)
  case (boot lay found el)
  have "reachable (step (CreateCards lay) (step (Init found el) constructor))"
    by (intro reach_step reach_start) simp_all
  then show ?case by simp
next
  case (later s e)
  then show ?case by (intro reach_step)
qed

text \<open>The running page never draws a frame over an empty card list.\<close>

lemma started_cards: "started s \<Longrightarrow> cards s \<noteq> []"
proof (induction rule: started.induct)
  case (boot lay found el)
  show ?case by (rule createCards_nonempty)
next
  case (later s e)
  from step_keeps_cards[of s e] later.IH show ?case by auto
qed

section \<open>The states of the page session\<close>

lemma animate_card_static [simp]:
  "targetX (animate_card s ef es i c) = targetX c"
  "initialX (animate_card s ef es i c) = initialX c"
  "categoryName (animate_card s ef es i c) = categoryName c"
  "index (animate_card s ef es i c) = index c"
  by (simp_all add: animate_card_def Let_def)

lemma animate_static:
  assumes "i < length (cards s)"
  shows "targetX (cards (animate f s) ! i) = targetX (cards s ! i)"
    and "initialX (cards (animate f s) ! i) = initialX (cards s ! i)"
    and "categoryName (cards (animate f s) ! i) = categoryName (cards s ! i)"
    and "index (cards (animate f s) ! i) = index (cards s ! i)"
  using assms
  by (simp_all add: animate_cards applyScrollAnimation_nth split: option.split)

lemmas session_defs = startup_def section_at_def frame_at_def desktop_layout_def canvas_rect_def

lemmas frame_defs = animate_def track_scroll_def applyScrollAnimation_def checkIntersections_def
  updateSectionDimensions_def strict_eq_def or_else_def flipProgress_def set_cursor_eq Let_def

lemma reachable_flipping: "reachable flipping"
  unfolding flipping_def
  by (rule reachable_run[OF reach_start]) (simp add: session_defs)

lemma reachable_hovering: "reachable hovering"
  unfolding hovering_def
  by (rule reachable_run[OF reach_start]) (simp add: session_defs)

lemma reachable_opened_inside: "reachable opened_inside"
  unfolding opened_inside_def
  by (rule reachable_run[OF reach_start]) (simp add: session_defs)

lemma flipping_state:
  "scrollProgress flipping = Num (3/10)"
  "\<not> interactionsEnabled flipping"
  "hoveredCard flipping = None"
  "length (cards flipping) = 5"
  by (simp_all add: flipping_def session_defs frame_defs constructor_def init_def
        createCards_def categories_def)

lemma hovering_state:
  "scrollProgress hovering = Num 1"
  "interactionsEnabled hovering"
  "hoveredCard hovering = Some 2"
  "mouseIsOver hovering"
  "length (cards hovering) = 5"
  "stickyStartScroll hovering = Some (Num 600)"
  "renderer hovering \<noteq> None"
  "camera hovering"
  by (simp_all add: hovering_def session_defs frame_defs constructor_def init_def
        createCards_def categories_def onMouseMove_def)

lemma opened_inside_state:
  "stickyStartScroll opened_inside = Some (Num 1000)"
  "ANIMATION_SCROLL_DISTANCE opened_inside = Num 3200"
  by (simp_all add: opened_inside_def session_defs frame_defs constructor_def init_def
        createCards_def categories_def)

lemma created_cards:
  "categoryName (cards (createCards desktop_layout (init found el constructor)) ! 2) = ''Hockey''"
  "index (cards (createCards desktop_layout (init found el constructor)) ! 2) = 2"
  "initialX (cards (createCards desktop_layout (init found el constructor)) ! 4) = Num 0"
  "is_finite (targetX (cards (createCards desktop_layout (init found el constructor)) ! 4))"
  by (simp_all add: createCards_def categories_def constructor_def Let_def desktop_layout_def
        calculateVisibleWidth_def Math_PI_def init_def updateSectionDimensions_def
        split: option.split)


lemma hovering_cards:
  "categoryName (cards hovering ! 2) = ''Hockey''"
  "index (cards hovering ! 2) = 2"
  by (simp_all add: hovering_def startup_def animate_static created_cards)

section \<open>Phase scheduling\<close>



text \<open>
  C2 (interaction gating). A frame over a non-empty card list sets
  \<^verbatim>\<open>interactionsEnabled\<close> to \<open>min 1 (scrollProgress / 0.4) \<ge> 1\<close>: false for every scroll
  progress below \<open>0.4\<close>, true from \<open>0.4\<close> on. (The page creates the five cards before the
  first frame: by \<open>started_cards\<close> the list is non-empty in every state of the running
  page.)
\<close>

theorem interactions_gate:
  assumes "cards s \<noteq> []" and "scrollProgress s = Num p"
  shows "interactionsEnabled (applyScrollAnimation s)
           = (Num 1 \<le> Math_min (Num 1) (scrollProgress s / Num 0.4)) \<and>
         interactionsEnabled (applyScrollAnimation s) = (0.4 \<le> p)"
proof -
  have "interactionsEnabled (applyScrollAnimation s) = (Num 1 \<le> flipProgress (scrollProgress s))"
    using assms(1) by (simp add: applyScrollAnimation_enabled)
  moreover have "(Num 1 \<le> flipProgress (scrollProgress s)) = (0.4 \<le> p)"
    using assms(2) by (auto simp add: flipProgress_Num min_def)
  ultimately show ?thesis by (simp add: flipProgress_def)
qed

theorem interactions_gate_witness:
  "cards flipping \<noteq> [] \<and> scrollProgress flipping = Num (3/10) \<and>
   \<not> interactionsEnabled (applyScrollAnimation flipping) \<and>
   cards hovering \<noteq> [] \<and> scrollProgress hovering = Num 1 \<and>
   interactionsEnabled (applyScrollAnimation hovering)"
proof -
  have a: "cards flipping \<noteq> []" using flipping_state(4) by auto
  have b: "cards hovering \<noteq> []" using hovering_state(5) by auto
  from interactions_gate[OF a flipping_state(1)] interactions_gate[OF b hovering_state(1)]
    a b flipping_state(1) hovering_state(1)
  show ?thesis by simp
qed

text \<open>
  C3 (clamp invariant). For every scroll progress in \<open>[0, 1]\<close> both eased sub-progress
  values of \<^verbatim>\<open>applyScrollAnimation\<close> lie in \<open>[0, 1]\<close>; in particular the
  ease-in-out-cubic curve maps \<open>[0, 1]\<close> into \<open>[0, 1]\<close>.
\<close>

theorem eased_progress_in_unit_interval:
  assumes "0 \<le> p" and "p \<le> 1"
  shows "between 0 1 (easeInOutCubic (flipProgress (Num p))) \<and>
         between 0 1 (easeInOutCubic (spreadProgress (Num p))) \<and>
         between 0 1 (easeInOutCubic (Num p))"
proof -
  from assms(1) have "between 0 1 (flipProgress (Num p))" by (simp add: flipProgress_Num)
  moreover from assms(2) have "between 0 1 (spreadProgress (Num p))"
    by (simp add: spreadProgress_Num)
  moreover from assms have "between 0 1 (Num p)" by simp
  ultimately show ?thesis by (simp add: easeInOutCubic_between)
qed

theorem eased_progress_in_unit_interval_witness:
  "(0 :: real) \<le> 7/10 \<and> (7/10 :: real) \<le> 1 \<and>
   between 0 1 (easeInOutCubic (flipProgress (Num (7/10)))) \<and>
   between 0 1 (easeInOutCubic (spreadProgress (Num (7/10)))) \<and>
   between 0 1 (easeInOutCubic (Num (7/10)))"
proof -
  have a: "(0 :: real) \<le> 7/10" and b: "(7/10 :: real) \<le> 1" by simp_all
  from eased_progress_in_unit_interval[OF a b] a b show ?thesis by simp
qed

section \<open>Scroll progress of a pinned frame\<close>

lemma animate_pinned_progress:
  assumes "categoriesSection f = Some el" and "bounding_top el \<le> Num 0"
    and "or_else (scrollY f) (pageYOffset f) = Num c"
    and "(case stickyStartScroll s of None \<Rightarrow> Num c | Some x \<Rightarrow> x) = Num a"
    and "ANIMATION_SCROLL_DISTANCE s = Num d" and "d \<noteq> 0"
  shows "scrollProgress (animate f s) = Num (min 1 ((c - a) / d))"
  using assms
  by (cases "stickyStartScroll s") (simp_all add: animate_progress track_scroll_progress)

text \<open>
  C4 (pinned progress formula). The claim is that a pinned frame sets
  \<open>scrollProgress = clamp ((currentScrollOffset - anchor) / ANIMATION_SCROLL_DISTANCE) 0 1\<close>
  and so is never negative. The code takes the minimum with \<open>1\<close> only: whenever the
  current scroll offset is below the recorded anchor while the section is still pinned,
  the progress it stores is the negative quotient itself.
\<close>

theorem pinned_progress_below_anchor:
  assumes "categoriesSection f = Some el" and "bounding_top el \<le> Num 0"
    and "or_else (scrollY f) (pageYOffset f) = Num c"
    and "stickyStartScroll s = Some (Num a)"
    and "ANIMATION_SCROLL_DISTANCE s = Num d" and "0 < d"
    and "c < a"
  shows "scrollProgress (animate f s) = Num ((c - a) / d) \<and>
         scrollProgress (animate f s) < Num 0"
proof -
  from assms(6,7) have neg: "(c - a) / d < 0" by (simp add: divide_neg_pos)
  have "scrollProgress (animate f s) = Num (min 1 ((c - a) / d))"
    using assms by (intro animate_pinned_progress) simp_all
  with neg show ?thesis by (simp add: min_def)
qed

theorem pinned_progress_below_anchor_witness:
  "reachable opened_inside \<and>
   categoriesSection (frame_at 0 600 []) = Some (section_at 0) \<and>
   bounding_top (section_at 0) \<le> Num 0 \<and>
   or_else (scrollY (frame_at 0 600 [])) (pageYOffset (frame_at 0 600 [])) = Num 600 \<and>
   stickyStartScroll opened_inside = Some (Num 1000) \<and>
   ANIMATION_SCROLL_DISTANCE opened_inside = Num 3200 \<and>
   scrollProgress (animate (frame_at 0 600 []) opened_inside) = Num (- 1/8) \<and>
   scrollProgress (animate (frame_at 0 600 []) opened_inside) < Num 0"
proof -
  have f: "categoriesSection (frame_at 0 600 []) = Some (section_at 0)"
    "bounding_top (section_at 0) \<le> Num 0"
    "or_else (scrollY (frame_at 0 600 [])) (pageYOffset (frame_at 0 600 [])) = Num 600"
    by (simp_all add: frame_at_def section_at_def or_else_def)
  have d: "(0 :: real) < 3200" and below: "(600 :: real) < 1000" by simp_all
  from pinned_progress_below_anchor[OF f opened_inside_state d below]
    reachable_opened_inside f opened_inside_state
  show ?thesis by simp
qed

text \<open>
  C5 (division guard). The claim is that a zero or negative
  \<^verbatim>\<open>ANIMATION_SCROLL_DISTANCE\<close> makes the pinned progress \<open>1\<close> at once. The code has
  no such guard: with distance zero the first pinned frame stores NaN, and with a negative
  distance the progress runs backwards.
\<close>

theorem division_guard_counterexample:
  "scrollProgress (animate (frame_at 0 600 [])
      (constructor\<lparr>ANIMATION_SCROLL_DISTANCE := Num 0\<rparr>)) = NaN \<and>
   scrollProgress (animate (frame_at 0 2200 []) (animate (frame_at 0 600 [])
      (constructor\<lparr>ANIMATION_SCROLL_DISTANCE := Num (- 3200)\<rparr>))) = Num (- 1/2)"
  by (simp add: frame_at_def section_at_def constructor_def frame_defs)

text \<open>
  C5, as the code has it. The distance is a positive constant: the constructor sets it to
  \<open>3200\<close> and no method assigns it, so it is \<open>3200\<close> in every reachable state. For every
  positive distance and finite scroll offsets the pinned progress is the finite number
  \<open>min 1 (scrolledSinceSticky / distance)\<close>: no division by zero arises.
\<close>

theorem pinned_progress_positive_distance:
  assumes "categoriesSection f = Some el" and "bounding_top el \<le> Num 0"
    and "or_else (scrollY f) (pageYOffset f) = Num c"
    and "(case stickyStartScroll s of None \<Rightarrow> Num c | Some x \<Rightarrow> x) = Num a"
    and "ANIMATION_SCROLL_DISTANCE s = Num d" and "0 < d"
  shows "scrollProgress (animate f s) = Num (min 1 ((c - a) / d)) \<and>
         (reachable s \<longrightarrow> d = 3200)"
proof -
  have "scrollProgress (animate f s) = Num (min 1 ((c - a) / d))"
    using assms by (intro animate_pinned_progress) simp_all
  moreover have "d = 3200" if "reachable s"
    using reachable_distance[OF that] assms(5) by simp
  ultimately show ?thesis by simp
qed

theorem pinned_progress_positive_distance_witness:
  "reachable hovering \<and>
   categoriesSection (frame_at 0 2200 []) = Some (section_at 0) \<and>
   bounding_top (section_at 0) \<le> Num 0 \<and>
   or_else (scrollY (frame_at 0 2200 [])) (pageYOffset (frame_at 0 2200 [])) = Num 2200 \<and>
   stickyStartScroll hovering = Some (Num 600) \<and>
   ANIMATION_SCROLL_DISTANCE hovering = Num 3200 \<and>
   scrollProgress (animate (frame_at 0 2200 []) hovering) = Num (1/2)"
proof -
  have f: "categoriesSection (frame_at 0 2200 []) = Some (section_at 0)"
    "bounding_top (section_at 0) \<le> Num 0"
    "or_else (scrollY (frame_at 0 2200 [])) (pageYOffset (frame_at 0 2200 [])) = Num 2200"
    by (simp_all add: frame_at_def section_at_def or_else_def)
  have a: "(case stickyStartScroll hovering of None \<Rightarrow> Num 2200 | Some x \<Rightarrow> x) = Num 600"
    by (simp add: hovering_state)
  have dist: "ANIMATION_SCROLL_DISTANCE hovering = Num 3200"
    by (rule reachable_distance[OF reachable_hovering])
  have d: "(0 :: real) < 3200" by simp
  from pinned_progress_positive_distance[OF f a dist d] reachable_hovering f dist hovering_state
  show ?thesis by simp
qed

section \<open>Hover state\<close>

lemma applyScrollAnimation_reset:
  assumes "scrollProgress t = Num 0"
    and "cards t = [] \<longrightarrow> \<not> interactionsEnabled t"
    and "\<not> interactionsEnabled t \<longrightarrow> hoveredCard t = None"
  shows "\<not> interactionsEnabled (applyScrollAnimation t) \<and>
         hoveredCard (applyScrollAnimation t) = None"
  using assms
  by (auto simp add: applyScrollAnimation_enabled applyScrollAnimation_hovered flipProgress_Num)

text \<open>
  C6 (reset atomicity). In every reachable state, a call of \<^verbatim>\<open>applyScrollAnimation\<close>
  with the scroll progress back at \<open>0\<close> leaves \<^verbatim>\<open>interactionsEnabled\<close> false and
  \<^verbatim>\<open>hoveredCard\<close> null, and so does the whole frame in which the section is found to
  have left the pinned state; no reachable state has \<^verbatim>\<open>interactionsEnabled\<close> false
  and \<^verbatim>\<open>hoveredCard\<close> non-null.
\<close>

theorem reset_clears_hover:
  assumes "reachable s"
  shows "(\<not> interactionsEnabled s \<longrightarrow> hoveredCard s = None) \<and>
         \<not> interactionsEnabled (applyScrollAnimation (s\<lparr>scrollProgress := Num 0\<rparr>)) \<and>
         hoveredCard (applyScrollAnimation (s\<lparr>scrollProgress := Num 0\<rparr>)) = None \<and>
         (categoriesSection f = Some el \<and> \<not> bounding_top el \<le> Num 0 \<longrightarrow>
            scrollProgress (animate f s) = Num 0 \<and>
            \<not> interactionsEnabled (animate f s) \<and>
            hoveredCard (animate f s) = None)"
proof -
  have inv1: "cards s = [] \<longrightarrow> \<not> interactionsEnabled s"
    using reachable_no_cards[OF assms] by blast
  have inv2: "\<not> interactionsEnabled s \<longrightarrow> hoveredCard s = None"
    using reachable_enabled_hover[OF assms] by blast
  have direct: "\<not> interactionsEnabled (applyScrollAnimation (s\<lparr>scrollProgress := Num 0\<rparr>)) \<and>
      hoveredCard (applyScrollAnimation (s\<lparr>scrollProgress := Num 0\<rparr>)) = None"
    using inv1 inv2 by (intro applyScrollAnimation_reset) simp_all
  have frame: "scrollProgress (animate f s) = Num 0 \<and> \<not> interactionsEnabled (animate f s) \<and>
      hoveredCard (animate f s) = None"
    if el: "categoriesSection f = Some el" and up: "\<not> bounding_top el \<le> Num 0"
  proof -
    let ?t = "track_scroll el f s"
    from up have zero: "scrollProgress ?t = Num 0" by (simp add: track_scroll_progress)
    from applyScrollAnimation_reset[OF zero] inv1 inv2
    have "\<not> interactionsEnabled (applyScrollAnimation ?t) \<and>
          hoveredCard (applyScrollAnimation ?t) = None" by simp
    with el zero show ?thesis by (simp add: animate_def checkIntersections_hovered)
  qed
  from inv2 direct frame show ?thesis by blast
qed

theorem reset_clears_hover_witness:
  "reachable hovering \<and> interactionsEnabled hovering \<and> hoveredCard hovering = Some 2 \<and>
   \<not> interactionsEnabled (applyScrollAnimation (hovering\<lparr>scrollProgress := Num 0\<rparr>)) \<and>
   hoveredCard (applyScrollAnimation (hovering\<lparr>scrollProgress := Num 0\<rparr>)) = None \<and>
   categoriesSection (frame_at 50 550 [2]) = Some (section_at 50) \<and>
   \<not> bounding_top (section_at 50) \<le> Num 0 \<and>
   scrollProgress (animate (frame_at 50 550 [2]) hovering) = Num 0 \<and>
   \<not> interactionsEnabled (animate (frame_at 50 550 [2]) hovering) \<and>
   hoveredCard (animate (frame_at 50 550 [2]) hovering) = None"
proof -
  have f: "categoriesSection (frame_at 50 550 [2]) = Some (section_at 50)"
    "\<not> bounding_top (section_at 50) \<le> Num 0"
    by (simp_all add: frame_at_def section_at_def)
  from reset_clears_hover[OF reachable_hovering, of "frame_at 50 550 [2]" "section_at 50"]
    reachable_hovering hovering_state f
  show ?thesis by simp
qed

text \<open>
  C7 (pointer outside). In every reachable state in which the pointer is outside the
  render surface (\<^verbatim>\<open>mouseIsOver\<close> false), the mouse coordinates are the sentinel
  \<open>(-999, -999)\<close> and \<^verbatim>\<open>hoveredCard\<close> is null; the mouseleave handler establishes this,
  and a later pick check cannot set \<^verbatim>\<open>hoveredCard\<close> whatever the ray hits.
\<close>

theorem pointer_outside_no_hover:
  assumes "reachable s" and "\<not> mouseIsOver s"
  shows "hoveredCard s = None \<and> mouse s = (Num (- 999), Num (- 999)) \<and>
         hoveredCard (checkIntersections hits s) = None \<and>
         \<not> mouseIsOver (onMouseLeave t) \<and> hoveredCard (onMouseLeave t) = None \<and>
         mouse (onMouseLeave t) = (Num (- 999), Num (- 999))"
proof -
  from reachable_mouse_out[OF assms]
  have out: "hoveredCard s = None" "mouse s = (Num (- 999), Num (- 999))" by simp_all
  from out(1) assms(2) have "hoveredCard (checkIntersections hits s) = None"
    by (simp add: checkIntersections_hovered)
  with out show ?thesis by simp
qed

theorem pointer_outside_no_hover_witness:
  "reachable (run [MouseLeave, Animate (frame_at 0 3800 [2])] hovering) \<and>
   hoveredCard hovering = Some 2 \<and>
   \<not> mouseIsOver (run [MouseLeave, Animate (frame_at 0 3800 [2])] hovering) \<and>
   hoveredCard (run [MouseLeave, Animate (frame_at 0 3800 [2])] hovering) = None \<and>
   mouse (run [MouseLeave, Animate (frame_at 0 3800 [2])] hovering)
     = (Num (- 999), Num (- 999))"
proof -
  let ?s = "run [MouseLeave, Animate (frame_at 0 3800 [2])] hovering"
  have r: "reachable ?s"
    by (rule reachable_run[OF reachable_hovering]) (simp add: frame_at_def hovering_state)
  have out: "\<not> mouseIsOver ?s" by simp
  from pointer_outside_no_hover[OF r out] r out hovering_state(3) show ?thesis by simp
qed

text \<open>
  C8 (click contract). A click dispatches exactly one \<^verbatim>\<open>categoryCardClick\<close> event,
  carrying the hovered card's \<^verbatim>\<open>categoryName\<close> and \<^verbatim>\<open>index\<close>, precisely when
  \<^verbatim>\<open>interactionsEnabled\<close> is true, renderer and camera are present and \<^verbatim>\<open>hoveredCard\<close>
  is non-null; otherwise it dispatches nothing. In either case it leaves the object as it
  was.
\<close>

theorem click_contract:
  "fst (onClick s) = s \<and>
   (interactionsEnabled s \<and> renderer s \<noteq> None \<and> camera s \<and> hoveredCard s = Some h \<longrightarrow>
      snd (onClick s) =
        [\<lparr>category = categoryName (cards s ! h), card_index = index (cards s ! h)\<rparr>]) \<and>
   (\<not> (interactionsEnabled s \<and> renderer s \<noteq> None \<and> camera s \<and> hoveredCard s \<noteq> None) \<longrightarrow>
      snd (onClick s) = [])"
  by (auto simp add: onClick_def split: option.split)

theorem click_contract_witness:
  "interactionsEnabled hovering \<and> renderer hovering \<noteq> None \<and> camera hovering \<and>
   hoveredCard hovering = Some 2 \<and>
   fst (onClick hovering) = hovering \<and>
   snd (onClick hovering) = [\<lparr>category = ''Hockey'', card_index = 2\<rparr>] \<and>
   \<not> interactionsEnabled flipping \<and>
   fst (onClick flipping) = flipping \<and>
   snd (onClick flipping) = []"
proof -
  from click_contract[of hovering 2] click_contract[of flipping 0]
    hovering_state hovering_cards flipping_state
  show ?thesis by simp
qed




text \<open>
  C10 (hover-state bounds). For every card of every reachable state, \<^verbatim>\<open>hoverScale\<close>
  lies in \<open>[1, 1.1]\<close> and \<^verbatim>\<open>hoverZ\<close> in \<open>[0, 1.5]\<close>; the committed scale is
  \<^verbatim>\<open>hoverScale\<close> on all three axes and the committed depth is \<^verbatim>\<open>baseZ + hoverZ\<close>.
\<close>

theorem hover_state_bounds:
  assumes "reachable s" and "i < length (cards s)"
  shows "between 1 1.1 (hoverScale (cards s ! i)) \<and>
         between 0 1.5 (hoverZ (cards s ! i)) \<and>
         scale (cards s ! i)
           = (hoverScale (cards s ! i), hoverScale (cards s ! i), hoverScale (cards s ! i)) \<and>
         position_z (cards s ! i) = baseZ (cards s ! i) + hoverZ (cards s ! i)"
proof -
  from assms(2) have "cards s ! i \<in> set (cards s)" by simp
  with reachable_in_range[OF assms(1)] have "hover_in_range (cards s ! i)" by blast
  then show ?thesis by (simp add: hover_in_range_def)
qed

theorem hover_state_bounds_witness:
  "reachable (run [Animate (frame_at 0 3800 [2])] hovering) \<and>
   2 < length (cards (run [Animate (frame_at 0 3800 [2])] hovering)) \<and>
   between 1 1.1 (hoverScale (cards (run [Animate (frame_at 0 3800 [2])] hovering) ! 2)) \<and>
   between 0 1.5 (hoverZ (cards (run [Animate (frame_at 0 3800 [2])] hovering) ! 2))"
proof -
  let ?s = "run [Animate (frame_at 0 3800 [2])] hovering"
  have r: "reachable ?s"
    by (rule reachable_run[OF reachable_hovering]) (simp add: frame_at_def hovering_state)
  have l: "2 < length (cards ?s)" by (simp add: hovering_state)
  from hover_state_bounds[OF r l] r l show ?thesis by simp
qed

end
